theory Spec2Isabelle
  imports Main
begin

section \<open>The application facade of Programmers Notepad (extapp.cpp)\<close>

text \<open>
  The class \<open>App\<close> owns the loaded extensions and the registered event sinks, routes
  \<open>runner:command\<close> strings and tears everything down on shutdown. Its member functions
  are modelled as functions on a record of the member variables. Every call that leaves
  the class (a sink callback, an extension's constructor or \<open>Unload\<close>, the logger, the
  file-system helpers, the options object) is appended to a trace, in program order, so
  that ordering and "nothing happened" are statements about that trace. What such a call
  returns is read from an environment record. The collaborators are opaque: a callback
  that re-enters \<open>App\<close> or throws is outside the model.
\<close>

subsection \<open>Data\<close>

type_synonym tstring = string

text \<open>
  A shared pointer to an event sink compares by the address it holds; the address is a
  natural number here. Document handles are only passed through.
\<close>

type_synonym IAppEventSinkPtr = nat
type_synonym IDocumentPtr = nat

datatype pnpath = PNPATH_SCHEMES | PNPATH_COMPILEDSCHEMES | PNPATH_USERSETTINGS

text \<open>An extension object, identified by the path it was constructed from.\<close>

datatype Extension = Extension (ext_path: tstring)

record AppSettings =
  GetExtensions :: "tstring list"

datatype event =
    InitResourceLoader
  | AppSettings_new
  | MakeOptions
  | LoadCache
  | SchemeManager_SetPath tstring
  | SchemeManager_SetCompiledPath tstring
  | SchemeManager_Load
  | CommandDispatch_new tstring
  | Extension_new tstring
  | Extension_Unload Extension
  | LOG tstring
  | UNEXPECTED tstring
  | Script_new tstring tstring
  | Script_Run tstring tstring
  | OnAppClose_call IAppEventSinkPtr
  | OnNewDocument_call IAppEventSinkPtr IDocumentPtr
  | AppSettings_delete
  | DeletionManager_DeleteAll
  | OptionsFactory_Release
  | CommandDispatch_delete tstring
  | DeleteDirectory_call tstring bool
  | CreateDirectoryRecursive_call tstring
  | Options_Clear tstring

text \<open>
  The environment: what the collaborators answer. \<open>Valid\<close> is the answer of
  \<open>ext->Valid()\<close> for an extension constructed from a path; \<open>DeleteDirectory\<close> and
  \<open>CreateDirectoryRecursive\<close> are the success flags of the two directory helpers;
  \<open>PNSK_INTERFACE\<close> is the name of the UI-settings subkey, a constant of a header that
  is not part of extapp.cpp and therefore a parameter.
\<close>

record env =
  LoadSettings :: AppSettings
  GetPNPath :: "pnpath \<Rightarrow> tstring"
  Valid :: "tstring \<Rightarrow> bool"
  DeleteDirectory :: "tstring \<Rightarrow> bool \<Rightarrow> bool"
  CreateDirectoryRecursive :: "tstring \<Rightarrow> bool"
  PNSK_INTERFACE :: tstring

text \<open>
  The member variables of \<open>App\<close>, the global \<open>g_Context.options\<close> (is it set?) and the
  trace. \<open>m_dispatch\<close> is \<open>None\<close> for the null pointer and otherwise holds the keymap path
  the dispatcher was constructed from. \<open>EventSinkList\<close> and \<open>ExtensionList\<close> are
  declared in extapp.h; the member functions called on them (\<open>push_back\<close>, \<open>remove\<close> of a
  value, \<open>clear\<close>, forward iteration) are those of a doubly linked standard list, which
  is a HOL list here.
\<close>

record app =
  m_settings :: AppSettings
  m_dispatch :: "tstring option"
  m_bCanLoadExtensions :: bool
  m_exts :: "Extension list"
  m_sinks :: "IAppEventSinkPtr list"
  g_Context_options :: bool
  trace :: "event list"

datatype fault = OutOfRange

subsection \<open>Strings and lists of the standard library\<close>

text \<open>
  \<open>operator[]\<close> on a constant string: the character at \<open>pos\<close> below the size, the
  terminating null character at \<open>pos = size()\<close>, undefined beyond (\<open>None\<close>).
\<close>

definition tstring_at :: "tstring \<Rightarrow> nat \<Rightarrow> char option" where
  "tstring_at s pos =
     (if pos < length s then Some (s ! pos)
      else if pos = length s then Some (CHR 0x00)
      else None)"

text \<open>
  \<open>str.find(c)\<close>: the position of the first occurrence, \<open>None\<close> for \<open>npos\<close>. The source
  compares the result with \<open>-1\<close>, which converts to the largest \<open>size_t\<close>, that is \<open>npos\<close>.
\<close>

fun tstring_find :: "tstring \<Rightarrow> char \<Rightarrow> nat option" where
  "tstring_find [] c = None"
| "tstring_find (x # xs) c =
     (if x = c then Some 0 else map_option Suc (tstring_find xs c))"

text \<open>\<open>str.substr(0, n)\<close>: position 0 is never beyond the size, so it never throws.\<close>

definition substr0 :: "tstring \<Rightarrow> nat \<Rightarrow> tstring" where
  "substr0 s n = take n s"

text \<open>\<open>list::remove(value)\<close> erases every element that compares equal to the value.\<close>

fun list_remove :: "'a \<Rightarrow> 'a list \<Rightarrow> 'a list" where
  "list_remove v [] = []"
| "list_remove v (x # xs) = (if x = v then list_remove v xs else x # list_remove v xs)"

subsection \<open>Calls that leave the class\<close>

definition emit :: "event \<Rightarrow> app \<Rightarrow> app" where
  "emit e a = a\<lparr>trace := trace a @ [e]\<rparr>"

text \<open>
  The macros \<open>UNEXPECTED\<close> and \<open>RETURN_UNEXPECTED\<close> come from a header outside
  extapp.cpp. \<open>RETURN_UNEXPECTED(msg, ret)\<close> returns a value to the caller after raising
  the condition, so raising does not end the program: it is a trace entry, and control
  goes on to the next statement.
\<close>

definition raise_unexpected :: "tstring \<Rightarrow> app \<Rightarrow> app" where
  "raise_unexpected msg a = emit (UNEXPECTED msg) a"

subsection \<open>Construction and initialisation\<close>

definition ensureUserSettingsDir :: "env \<Rightarrow> app \<Rightarrow> app" where
  "ensureUserSettingsDir E a =
     (let usPath = GetPNPath E PNPATH_USERSETTINGS;
          a1 = emit (CreateDirectoryRecursive_call usPath) a
      in if \<not> CreateDirectoryRecursive E usPath
         then raise_unexpected ''Could not create user settings folder'' a1
         else a1)"

definition App :: "env \<Rightarrow> app" where
  "App E =
     (let a0 = \<lparr>m_settings = LoadSettings E, m_dispatch = None,
                m_bCanLoadExtensions = True, m_exts = [], m_sinks = [],
                g_Context_options = False, trace = []\<rparr>;
          a1 = emit InitResourceLoader a0;
          a2 = emit AppSettings_new a1;
          a3 = (emit MakeOptions a2)\<lparr>g_Context_options := True\<rparr>;
          a4 = ensureUserSettingsDir E a3
      in emit LoadCache a4)"

definition Init :: "env \<Rightarrow> app \<Rightarrow> app" where
  "Init E a =
     (let path = GetPNPath E PNPATH_SCHEMES;
          cpath = GetPNPath E PNPATH_COMPILEDSCHEMES;
          keypath = GetPNPath E PNPATH_USERSETTINGS @ ''keymap.dat'';
          a1 = emit (SchemeManager_SetPath path) a;
          a2 = emit (SchemeManager_SetCompiledPath cpath) a1;
          a3 = emit SchemeManager_Load a2;
          a4 = emit (CommandDispatch_new keypath) a3
      in a4\<lparr>m_dispatch := Some keypath\<rparr>)"

subsection \<open>Event sinks\<close>

definition AddEventSink :: "IAppEventSinkPtr \<Rightarrow> app \<Rightarrow> app" where
  "AddEventSink sink a = a\<lparr>m_sinks := m_sinks a @ [sink]\<rparr>"

definition RemoveEventSink :: "IAppEventSinkPtr \<Rightarrow> app \<Rightarrow> app" where
  "RemoveEventSink sink a = a\<lparr>m_sinks := list_remove sink (m_sinks a)\<rparr>"

fun OnNewDocument_loop :: "IAppEventSinkPtr list \<Rightarrow> IDocumentPtr \<Rightarrow> app \<Rightarrow> app" where
  "OnNewDocument_loop [] doc a = a"
| "OnNewDocument_loop (i # rest) doc a =
     OnNewDocument_loop rest doc (emit (OnNewDocument_call i doc) a)"

definition OnNewDocument :: "IDocumentPtr \<Rightarrow> app \<Rightarrow> app" where
  "OnNewDocument doc a = OnNewDocument_loop (m_sinks a) doc a"

subsection \<open>Extensions\<close>

text \<open>
  One round of the loop of \<open>LoadExtensions\<close> per path; the invalid extension object is
  neither stored nor deleted.
\<close>

fun LoadExtensions_loop :: "env \<Rightarrow> tstring list \<Rightarrow> app \<Rightarrow> fault + app" where
  "LoadExtensions_loop E [] a = Inr a"
| "LoadExtensions_loop E (path # rest) a =
     (case tstring_at path 0 of
        None \<Rightarrow> Inl OutOfRange
      | Some c0 \<Rightarrow>
          if c0 \<noteq> CHR ''#'' \<and> c0 \<noteq> CHR ''!'' then
            (if Valid E path
             then LoadExtensions_loop E rest
                    ((emit (Extension_new path) a)\<lparr>m_exts := m_exts a @ [Extension path]\<rparr>)
             else LoadExtensions_loop E rest
                    (emit (LOG (''Failed to load extension: '' @ path))
                       (emit (Extension_new path) a)))
          else LoadExtensions_loop E rest a)"

definition LoadExtensions :: "env \<Rightarrow> app \<Rightarrow> fault + app" where
  "LoadExtensions E a =
     (if \<not> m_bCanLoadExtensions a then Inr a
      else LoadExtensions_loop E (GetExtensions (m_settings a)) a)"

definition SetCanLoadExtensions :: "bool \<Rightarrow> app \<Rightarrow> app" where
  "SetCanLoadExtensions canLoad a = a\<lparr>m_bCanLoadExtensions := canLoad\<rparr>"

fun OnAppClose_loop :: "IAppEventSinkPtr list \<Rightarrow> app \<Rightarrow> app" where
  "OnAppClose_loop [] a = a"
| "OnAppClose_loop (i # rest) a = OnAppClose_loop rest (emit (OnAppClose_call i) a)"

fun Unload_loop :: "Extension list \<Rightarrow> app \<Rightarrow> app" where
  "Unload_loop [] a = a"
| "Unload_loop (i # rest) a = Unload_loop rest (emit (Extension_Unload i) a)"

definition unloadExtensions :: "app \<Rightarrow> app" where
  "unloadExtensions a =
     (let a1 = OnAppClose_loop (m_sinks a) a;
          a2 = Unload_loop (m_exts a1) a1
      in a2\<lparr>m_exts := []\<rparr>)"

subsection \<open>Shutdown\<close>

text \<open>
  \<open>m_settings\<close> always points to the settings object the constructor created, so its
  deletion is a call. \<open>m_dispatch\<close> is null until \<open>Init\<close> has run, and deleting the null
  pointer does nothing: the dispatcher is deleted only when there is one.
\<close>

definition deinit :: "app \<Rightarrow> app" where
  "deinit a =
     (let a1 = unloadExtensions a;
          a2 = emit AppSettings_delete a1;
          a3 = emit DeletionManager_DeleteAll a2;
          a4 = (emit OptionsFactory_Release a3)\<lparr>g_Context_options := False\<rparr>
      in case m_dispatch a4 of
           None \<Rightarrow> a4
         | Some keypath \<Rightarrow> emit (CommandDispatch_delete keypath) a4)"

subsection \<open>Extension commands\<close>

definition RunExtensionCommand :: "tstring \<Rightarrow> app \<Rightarrow> app" where
  "RunExtensionCommand command a =
     (case tstring_find command (CHR '':'') of
        None \<Rightarrow> a
      | Some rindex \<Rightarrow>
          (let runner_id = substr0 command rindex
           in if runner_id = ''ext''
              then raise_unexpected ''Not Yet Implemented'' a
              else emit (Script_Run [] command) (emit (Script_new [] command) a)))"

subsection \<open>Clearing the user data\<close>

text \<open>The result is the returned flag and the state after the call.\<close>

definition ClearUserData :: "env \<Rightarrow> app \<Rightarrow> bool \<times> app" where
  "ClearUserData E a =
     (let userSettingsDir = GetPNPath E PNPATH_USERSETTINGS;
          a1 = emit (DeleteDirectory_call userSettingsDir True) a
      in if \<not> DeleteDirectory E userSettingsDir True
         then (False, raise_unexpected ''Failed to delete user settings directory!'' a1)
         else (let a2 = emit (Options_Clear (PNSK_INTERFACE E)) a1;
                   a3 = ensureUserSettingsDir E a2
               in (True, a3)))"

subsection \<open>Vocabulary of the statements\<close>

text \<open>
  An entry of the path list is disabled when its first character is \<open>#\<close> or \<open>!\<close>; the
  empty entry has no first character.
\<close>

definition disabled_entry :: "tstring \<Rightarrow> bool" where
  "disabled_entry p = (case p of [] \<Rightarrow> False | c # _ \<Rightarrow> c = CHR ''#'' \<or> c = CHR ''!'')"

text \<open>The calls one path of the list gives rise to.\<close>

definition load_events :: "env \<Rightarrow> tstring \<Rightarrow> event list" where
  "load_events E p =
     (if disabled_entry p then []
      else if Valid E p then [Extension_new p]
      else [Extension_new p, LOG (''Failed to load extension: '' @ p)])"

text \<open>The paths of the extensions constructed, the log messages and the extensions
  unloaded in a trace, each in trace order.\<close>

fun constructed :: "event list \<Rightarrow> tstring list" where
  "constructed [] = []"
| "constructed (Extension_new p # es) = p # constructed es"
| "constructed (e # es) = constructed es"

fun log_entries :: "event list \<Rightarrow> tstring list" where
  "log_entries [] = []"
| "log_entries (LOG m # es) = m # log_entries es"
| "log_entries (e # es) = log_entries es"

fun unloaded :: "event list \<Rightarrow> Extension list" where
  "unloaded [] = []"
| "unloaded (Extension_Unload x # es) = x # unloaded es"
| "unloaded (e # es) = unloaded es"

text \<open>What a call added to the trace: the trace after it, without the trace before it.\<close>

definition new_events :: "app \<Rightarrow> app \<Rightarrow> event list" where
  "new_events a a' = drop (length (trace a)) (trace a')"

subsection \<open>A concrete installation\<close>

definition example_settings :: AppSettings where
  "example_settings =
     \<lparr>GetExtensions = [''pypn.dll'', ''#old.dll'', ''broken.dll'', ''!off.dll'', [], ''tcl.dll'']\<rparr>"

definition example_env :: env where
  "example_env =
     \<lparr>LoadSettings = example_settings,
      GetPNPath = (\<lambda>p. case p of PNPATH_SCHEMES \<Rightarrow> ''schemes/''
                        | PNPATH_COMPILEDSCHEMES \<Rightarrow> ''cschemes/''
                        | PNPATH_USERSETTINGS \<Rightarrow> ''user/''),
      Valid = (\<lambda>p. p \<noteq> ''broken.dll''),
      DeleteDirectory = (\<lambda>p r. True),
      CreateDirectoryRecursive = (\<lambda>p. True),
      PNSK_INTERFACE = ''Interface Settings''\<rparr>"

text \<open>The same installation with a user-settings directory that cannot be deleted.\<close>

definition example_env_locked :: env where
  "example_env_locked = example_env\<lparr>DeleteDirectory := (\<lambda>p r. False)\<rparr>"

section \<open>Properties\<close>

subsection \<open>Library facts about the model\<close>

lemma list_remove_filter: "list_remove v xs = filter (\<lambda>x. x \<noteq> v) xs"
  by (induction xs) auto

lemma OnNewDocument_loop_eq:
  "OnNewDocument_loop xs doc a = a\<lparr>trace := trace a @ map (\<lambda>i. OnNewDocument_call i doc) xs\<rparr>"
  by (induction xs arbitrary: a) (simp_all add: emit_def)

lemma OnAppClose_loop_eq:
  "OnAppClose_loop xs a = a\<lparr>trace := trace a @ map OnAppClose_call xs\<rparr>"
  by (induction xs arbitrary: a) (simp_all add: emit_def)

lemma Unload_loop_eq:
  "Unload_loop xs a = a\<lparr>trace := trace a @ map Extension_Unload xs\<rparr>"
  by (induction xs arbitrary: a) (simp_all add: emit_def)

lemma tstring_find_None: "tstring_find s c = None \<longleftrightarrow> c \<notin> set s"
  by (induction s) auto

lemma tstring_find_Some:
  "c \<in> set s \<Longrightarrow> tstring_find s c = Some (length (takeWhile (\<lambda>x. x \<noteq> c) s))"
  by (induction s) auto

lemma substr0_find: "substr0 s (length (takeWhile P s)) = takeWhile P s"
  by (induction s) (auto simp: substr0_def)

text \<open>With a colon in the command, the runner id is the text before the first colon.\<close>

lemma runner_id_split:
  assumes "c \<in> set s"
  obtains rindex where "tstring_find s c = Some rindex"
    and "substr0 s rindex = takeWhile (\<lambda>x. x \<noteq> c) s"
  using assms tstring_find_Some [of c s] substr0_find [of s "\<lambda>x. x \<noteq> c"] by blast

lemma new_events_append [simp]: "new_events a (b\<lparr>trace := trace a @ es\<rparr>) = es"
  by (simp add: new_events_def)

lemma example_app:
  "App example_env =
     \<lparr>m_settings = example_settings, m_dispatch = None, m_bCanLoadExtensions = True,
      m_exts = [], m_sinks = [], g_Context_options = True,
      trace = [InitResourceLoader, AppSettings_new, MakeOptions,
               CreateDirectoryRecursive_call ''user/'', LoadCache]\<rparr>"
  by (simp add: App_def ensureUserSettingsDir_def emit_def example_env_def)

text \<open>One round of the loading loop, by the kind of entry.\<close>

lemma loop_disabled:
  "disabled_entry p \<Longrightarrow> LoadExtensions_loop E (p # ps) a = LoadExtensions_loop E ps a"
  by (cases p) (auto simp: tstring_at_def disabled_entry_def)

lemma loop_valid:
  "\<not> disabled_entry p \<Longrightarrow> Valid E p \<Longrightarrow>
   LoadExtensions_loop E (p # ps) a =
     LoadExtensions_loop E ps ((emit (Extension_new p) a)\<lparr>m_exts := m_exts a @ [Extension p]\<rparr>)"
  by (cases p) (auto simp: tstring_at_def disabled_entry_def)

lemma loop_invalid:
  "\<not> disabled_entry p \<Longrightarrow> \<not> Valid E p \<Longrightarrow>
   LoadExtensions_loop E (p # ps) a =
     LoadExtensions_loop E ps
       (emit (LOG (''Failed to load extension: '' @ p)) (emit (Extension_new p) a))"
  by (cases p) (auto simp: tstring_at_def disabled_entry_def)

text \<open>The loading loop never faults; its whole effect in closed form.\<close>

lemma LoadExtensions_loop_eq:
  "LoadExtensions_loop E paths a =
     Inr (a\<lparr>m_exts := m_exts a @ map Extension (filter (Valid E) (filter (\<lambda>p. \<not> disabled_entry p) paths)),
            trace := trace a @ concat (map (load_events E) paths)\<rparr>)"
proof (induction paths arbitrary: a)
  case Nil
  show ?case by simp
next
  case (Cons p ps)
  consider (off) "disabled_entry p"
    | (ok) "\<not> disabled_entry p" "Valid E p"
    | (bad) "\<not> disabled_entry p" "\<not> Valid E p"
    by blast
  then show ?case
  proof cases
    case off
    then show ?thesis
      by (simp add: loop_disabled Cons.IH load_events_def del: LoadExtensions_loop.simps)
  next
    case ok
    then show ?thesis
      by (simp add: loop_valid Cons.IH load_events_def emit_def del: LoadExtensions_loop.simps)
  next
    case bad
    then show ?thesis
      by (simp add: loop_invalid Cons.IH load_events_def emit_def del: LoadExtensions_loop.simps)
  qed
qed

lemma LoadExtensions_on:
  "m_bCanLoadExtensions a \<Longrightarrow>
   LoadExtensions E a =
     Inr (a\<lparr>m_exts := m_exts a @ map Extension (filter (Valid E)
                 (filter (\<lambda>p. \<not> disabled_entry p) (GetExtensions (m_settings a)))),
            trace := trace a @ concat (map (load_events E) (GetExtensions (m_settings a)))\<rparr>)"
  by (simp add: LoadExtensions_def LoadExtensions_loop_eq)

lemma constructed_append: "constructed (xs @ ys) = constructed xs @ constructed ys"
  by (induction xs rule: constructed.induct) simp_all

lemma log_entries_append: "log_entries (xs @ ys) = log_entries xs @ log_entries ys"
  by (induction xs rule: log_entries.induct) simp_all

lemma constructed_load:
  "constructed (concat (map (load_events E) paths)) = filter (\<lambda>p. \<not> disabled_entry p) paths"
  by (induction paths) (simp_all add: constructed_append load_events_def)

lemma log_entries_load:
  "log_entries (concat (map (load_events E) paths)) =
     map (\<lambda>p. ''Failed to load extension: '' @ p)
       (filter (\<lambda>p. \<not> Valid E p) (filter (\<lambda>p. \<not> disabled_entry p) paths))"
  by (induction paths) (simp_all add: log_entries_append load_events_def)

lemma unloaded_append: "unloaded (xs @ ys) = unloaded xs @ unloaded ys"
  by (induction xs rule: unloaded.induct) simp_all

lemma unloaded_sinks: "unloaded (map OnAppClose_call xs) = []"
  by (induction xs) simp_all

lemma unloaded_exts: "unloaded (map Extension_Unload xs) = xs"
  by (induction xs) simp_all

lemma unloadExtensions_eq:
  "unloadExtensions a =
     a\<lparr>m_exts := [],
       trace := trace a @ map OnAppClose_call (m_sinks a) @ map Extension_Unload (m_exts a)\<rparr>"
  by (simp add: unloadExtensions_def OnAppClose_loop_eq Unload_loop_eq)

text \<open>Facts about the concrete installation.\<close>

lemma example_paths:
  "filter (\<lambda>p. \<not> disabled_entry p) (GetExtensions example_settings) =
     [''pypn.dll'', ''broken.dll'', [], ''tcl.dll'']"
  by (simp add: example_settings_def disabled_entry_def)

lemma example_valid: "Valid example_env p \<longleftrightarrow> p \<noteq> ''broken.dll''"
  by (simp add: example_env_def)

lemma example_on: "m_bCanLoadExtensions (App example_env)"
  by (simp add: example_app)

lemma example_list: "GetExtensions (m_settings (App example_env)) = GetExtensions example_settings"
  by (simp add: example_app)

lemma example_env_fields:
  "GetPNPath example_env PNPATH_USERSETTINGS = ''user/''"
  "DeleteDirectory example_env p r"
  "CreateDirectoryRecursive example_env p"
  "PNSK_INTERFACE example_env = ''Interface Settings''"
  by (simp_all add: example_env_def)

lemma example_env_locked_fields:
  "GetPNPath example_env_locked PNPATH_USERSETTINGS = ''user/''"
  "\<not> DeleteDirectory example_env_locked p r"
  by (simp_all add: example_env_locked_def example_env_def)

subsection \<open>Event sinks\<close>

text \<open>
  C1 (as the code has it). \<open>RemoveEventSink\<close> erases every registration of the sink,
  not only the first: what stays is the list of the other sinks, in their order. After two
  \<open>AddEventSink(S)\<close> and one \<open>RemoveEventSink(S)\<close> no registration of \<open>S\<close> remains, and
  a following notification of a new document does not call \<open>S\<close> at all.
\<close>

theorem C1_remove_erases_all:
  "m_sinks (RemoveEventSink S a) = filter (\<lambda>x. x \<noteq> S) (m_sinks a) \<and>
   m_sinks (RemoveEventSink S (AddEventSink S (AddEventSink S a))) = filter (\<lambda>x. x \<noteq> S) (m_sinks a) \<and>
   count_list (m_sinks (RemoveEventSink S (AddEventSink S (AddEventSink S a)))) S = 0 \<and>
   count_list
     (new_events (RemoveEventSink S (AddEventSink S (AddEventSink S a)))
        (OnNewDocument doc (RemoveEventSink S (AddEventSink S (AddEventSink S a)))))
     (OnNewDocument_call S doc) = 0"
  by (auto simp: RemoveEventSink_def AddEventSink_def OnNewDocument_def list_remove_filter
      OnNewDocument_loop_eq new_events_def count_list_0_iff)

theorem C1_witness:
  "m_sinks (RemoveEventSink 7 (AddEventSink 7 (AddEventSink 7 (AddEventSink 4 (App example_env))))) = [4] \<and>
   count_list
     (new_events (RemoveEventSink 7 (AddEventSink 7 (AddEventSink 7 (AddEventSink 4 (App example_env)))))
        (OnNewDocument 1 (RemoveEventSink 7 (AddEventSink 7 (AddEventSink 7 (AddEventSink 4 (App example_env)))))))
     (OnNewDocument_call 7 1) = 0"
  using C1_remove_erases_all [of 7 "AddEventSink 4 (App example_env)" 1]
  by (simp add: AddEventSink_def example_app)

text \<open>
  The claim as the specification words it (one registration of \<open>S\<close> is left, and a
  notification calls \<open>S\<close> once) fails for the sink 7 on a freshly constructed \<open>App\<close>:
  no registration is left and the notification adds no call.
\<close>

theorem C1_counterexample:
  "count_list (m_sinks (RemoveEventSink 7 (AddEventSink 7 (AddEventSink 7 (App example_env))))) 7 \<noteq> 1 \<and>
   m_sinks (RemoveEventSink 7 (AddEventSink 7 (AddEventSink 7 (App example_env)))) = [] \<and>
   trace (OnNewDocument 1 (RemoveEventSink 7 (AddEventSink 7 (AddEventSink 7 (App example_env)))))
     = trace (App example_env)"
  by (simp add: RemoveEventSink_def AddEventSink_def OnNewDocument_def example_app)

subsection \<open>Extension commands\<close>

text \<open>
  C2. A command without a colon, the empty command included, returns at once: the state
  after the call is the state before it, trace and all, so nothing was dispatched and
  no unexpected condition was raised.
\<close>

theorem C2_no_colon_is_noop:
  assumes "CHR '':'' \<notin> set command"
  shows "RunExtensionCommand command a = a"
proof -
  from assms have "tstring_find command (CHR '':'') = None"
    by (simp add: tstring_find_None)
  then show ?thesis
    by (simp add: RunExtensionCommand_def)
qed

theorem C2_witness:
  "RunExtensionCommand [] (App example_env) = App example_env \<and>
   RunExtensionCommand ''noColonHere'' (App example_env) = App example_env"
  using C2_no_colon_is_noop [of "[]" "App example_env"]
    C2_no_colon_is_noop [of "''noColonHere''" "App example_env"]
  by simp

text \<open>
  C3. When the text before the first colon is \<open>ext\<close>, the call raises the unexpected
  condition "Not Yet Implemented" and does nothing else: the only addition to the trace
  is that condition, so no script is constructed or run.
\<close>

theorem C3_ext_is_unexpected:
  assumes "CHR '':'' \<in> set command"
    and "takeWhile (\<lambda>c. c \<noteq> CHR '':'') command = ''ext''"
  shows "RunExtensionCommand command a = a\<lparr>trace := trace a @ [UNEXPECTED ''Not Yet Implemented'']\<rparr>"
proof -
  from assms(1) obtain rindex where "tstring_find command (CHR '':'') = Some rindex"
    and "substr0 command rindex = takeWhile (\<lambda>c. c \<noteq> CHR '':'') command"
    by (rule runner_id_split)
  with assms(2) show ?thesis
    by (simp add: RunExtensionCommand_def raise_unexpected_def emit_def)
qed

theorem C3_witness:
  "RunExtensionCommand ''ext:anything'' (App example_env) =
     (App example_env)\<lparr>trace := trace (App example_env) @ [UNEXPECTED ''Not Yet Implemented'']\<rparr>"
  using C3_ext_is_unexpected [of "''ext:anything''" "App example_env"]
  by simp

text \<open>
  C4. When the command has a colon and the text before the first colon is not \<open>ext\<close>,
  the call constructs one script, named by the empty string and carrying the whole
  command (runner id and colon included), and runs it before returning; nothing else
  changes.
\<close>

theorem C4_other_runner_runs_script:
  assumes "CHR '':'' \<in> set command"
    and "takeWhile (\<lambda>c. c \<noteq> CHR '':'') command \<noteq> ''ext''"
  shows "RunExtensionCommand command a =
           a\<lparr>trace := trace a @ [Script_new [] command, Script_Run [] command]\<rparr>"
proof -
  from assms(1) obtain rindex where "tstring_find command (CHR '':'') = Some rindex"
    and "substr0 command rindex = takeWhile (\<lambda>c. c \<noteq> CHR '':'') command"
    by (rule runner_id_split)
  with assms(2) show ?thesis
    by (simp add: RunExtensionCommand_def emit_def)
qed

theorem C4_witness:
  "RunExtensionCommand ''foo:bar'' (App example_env) =
     (App example_env)\<lparr>trace := trace (App example_env) @
        [Script_new [] ''foo:bar'', Script_Run [] ''foo:bar'']\<rparr>"
  using C4_other_runner_runs_script [of "''foo:bar''" "App example_env"]
  by simp

subsection \<open>Loading extensions\<close>

text \<open>
  C5. For every path list, \<open>LoadExtensions\<close> returns normally; the extensions it
  constructs are exactly the entries that do not begin with \<open>#\<close> or \<open>!\<close>, in list
  order (none at all when loading is switched off), so no disabled entry is ever
  constructed; and the valid ones among the constructed are appended to \<open>m_exts\<close> in
  that same order.
\<close>

theorem C5_disabled_skipped_valid_appended:
  "\<exists>a'. LoadExtensions E a = Inr a' \<and>
      constructed (new_events a a') =
        (if m_bCanLoadExtensions a
         then filter (\<lambda>p. \<not> disabled_entry p) (GetExtensions (m_settings a)) else []) \<and>
      (\<forall>p \<in> set (constructed (new_events a a')). \<not> disabled_entry p) \<and>
      m_exts a' = m_exts a @ map Extension (filter (Valid E) (constructed (new_events a a')))"
proof (cases "m_bCanLoadExtensions a")
  case True
  then show ?thesis
    by (simp add: LoadExtensions_on constructed_load)
next
  case False
  then show ?thesis
    by (simp add: LoadExtensions_def new_events_def)
qed

theorem C5_witness:
  "\<exists>a'. LoadExtensions example_env (App example_env) = Inr a' \<and>
      constructed (new_events (App example_env) a') = [''pypn.dll'', ''broken.dll'', [], ''tcl.dll''] \<and>
      m_exts a' = [Extension ''pypn.dll'', Extension [], Extension ''tcl.dll'']"
proof -
  from C5_disabled_skipped_valid_appended [of example_env "App example_env"]
  obtain a' where r: "LoadExtensions example_env (App example_env) = Inr a'"
    and c: "constructed (new_events (App example_env) a') =
              (if m_bCanLoadExtensions (App example_env)
               then filter (\<lambda>p. \<not> disabled_entry p) (GetExtensions (m_settings (App example_env)))
               else [])"
    and m: "m_exts a' = m_exts (App example_env) @
              map Extension (filter (Valid example_env) (constructed (new_events (App example_env) a')))"
    by blast
  from c example_on have c': "constructed (new_events (App example_env) a') =
      [''pypn.dll'', ''broken.dll'', [], ''tcl.dll'']"
    by (simp add: example_list example_paths)
  from m [unfolded c'] have "m_exts a' = [Extension ''pypn.dll'', Extension [], Extension ''tcl.dll'']"
    by (simp add: example_valid example_app)
  with r c' show ?thesis by blast
qed

text \<open>
  C6. When exactly one of the entries that are constructed is invalid and \<open>N\<close> are valid,
  \<open>LoadExtensions\<close> returns normally, \<open>m_exts\<close> grows by exactly \<open>N\<close> (so it holds \<open>N\<close>
  when it was empty), exactly one message is logged, and every entry that is not
  disabled is constructed, those after the invalid one included.
\<close>

theorem C6_one_failure_does_not_abort:
  assumes "m_bCanLoadExtensions a"
    and "length (filter (\<lambda>p. \<not> Valid E p)
           (filter (\<lambda>p. \<not> disabled_entry p) (GetExtensions (m_settings a)))) = 1"
    and "length (filter (Valid E)
           (filter (\<lambda>p. \<not> disabled_entry p) (GetExtensions (m_settings a)))) = N"
  shows "\<exists>a'. LoadExtensions E a = Inr a' \<and>
           length (m_exts a') = length (m_exts a) + N \<and>
           length (log_entries (new_events a a')) = 1 \<and>
           constructed (new_events a a') =
             filter (\<lambda>p. \<not> disabled_entry p) (GetExtensions (m_settings a))"
  using assms by (simp add: LoadExtensions_on constructed_load log_entries_load)

theorem C6_witness:
  "\<exists>a'. LoadExtensions example_env (App example_env) = Inr a' \<and>
      length (m_exts a') = 3 \<and>
      length (log_entries (new_events (App example_env) a')) = 1 \<and>
      constructed (new_events (App example_env) a') = [''pypn.dll'', ''broken.dll'', [], ''tcl.dll'']"
proof -
  have bad: "length (filter (\<lambda>p. \<not> Valid example_env p)
      (filter (\<lambda>p. \<not> disabled_entry p) (GetExtensions (m_settings (App example_env))))) = 1"
    by (simp add: example_list example_paths example_valid)
  have good: "length (filter (Valid example_env)
      (filter (\<lambda>p. \<not> disabled_entry p) (GetExtensions (m_settings (App example_env))))) = 3"
    by (simp add: example_list example_paths example_valid)
  from C6_one_failure_does_not_abort [OF example_on bad good]
  obtain a' where r: "LoadExtensions example_env (App example_env) = Inr a'"
    and n: "length (m_exts a') = length (m_exts (App example_env)) + 3"
    and l: "length (log_entries (new_events (App example_env) a')) = 1"
    and c: "constructed (new_events (App example_env) a') =
              filter (\<lambda>p. \<not> disabled_entry p) (GetExtensions (m_settings (App example_env)))"
    by blast
  from n have "length (m_exts a') = 3"
    by (simp add: example_app)
  moreover from c have "constructed (new_events (App example_env) a') =
      [''pypn.dll'', ''broken.dll'', [], ''tcl.dll'']"
    by (simp add: example_list example_paths)
  ultimately show ?thesis using r l by blast
qed

text \<open>
  C7. With the flag \<open>m_bCanLoadExtensions\<close> false, \<open>LoadExtensions\<close> returns the state it
  was given: no path is read, nothing is constructed or logged, \<open>m_exts\<close> is unchanged.
  \<open>SetCanLoadExtensions(false)\<close> puts the object in that state and changes only the flag.
\<close>

theorem C7_safe_mode_is_noop:
  assumes "\<not> m_bCanLoadExtensions a"
  shows "LoadExtensions E a = Inr a \<and>
         \<not> m_bCanLoadExtensions (SetCanLoadExtensions False b) \<and>
         LoadExtensions E (SetCanLoadExtensions False b) = Inr (SetCanLoadExtensions False b) \<and>
         m_exts (SetCanLoadExtensions False b) = m_exts b \<and>
         trace (SetCanLoadExtensions False b) = trace b"
  using assms by (simp add: LoadExtensions_def SetCanLoadExtensions_def)

theorem C7_witness:
  "LoadExtensions example_env (SetCanLoadExtensions False (App example_env)) =
     Inr (SetCanLoadExtensions False (App example_env)) \<and>
   m_exts (SetCanLoadExtensions False (App example_env)) = [] \<and>
   constructed (trace (SetCanLoadExtensions False (App example_env))) = []"
proof -
  have off: "\<not> m_bCanLoadExtensions (SetCanLoadExtensions False (App example_env))"
    by (simp add: SetCanLoadExtensions_def)
  from C7_safe_mode_is_noop [OF off, of example_env "App example_env"]
  show ?thesis
    by (simp add: SetCanLoadExtensions_def example_app)
qed

text \<open>
  C10. \<open>LoadExtensions\<close> decides on every entry by the character at index 0, read
  without a test for emptiness, and never reads out of range: it always returns
  normally. For a non-empty entry index 0 is below the size and the read gives the first
  character. For the empty entry the read gives the terminating null character, which is
  neither \<open>#\<close> nor \<open>!\<close>, so the empty entry is not disabled and an extension is
  constructed for it.
\<close>

theorem C10_index_zero_read:
  "(\<exists>a'. LoadExtensions E a = Inr a' \<and>
      constructed (new_events a a') =
        (if m_bCanLoadExtensions a
         then filter (\<lambda>p. tstring_at p 0 \<noteq> Some (CHR ''#'') \<and> tstring_at p 0 \<noteq> Some (CHR ''!''))
                (GetExtensions (m_settings a))
         else []) \<and>
      (m_bCanLoadExtensions a \<and> [] \<in> set (GetExtensions (m_settings a)) \<longrightarrow>
         [] \<in> set (constructed (new_events a a')))) \<and>
   (\<forall>p \<in> set (GetExtensions (m_settings a)). p \<noteq> [] \<longrightarrow> 0 < length p \<and> tstring_at p 0 = Some (p ! 0)) \<and>
   tstring_at [] 0 = Some (CHR 0x00) \<and> \<not> disabled_entry []"
proof -
  have eq: "(tstring_at p 0 \<noteq> Some (CHR ''#'') \<and> tstring_at p 0 \<noteq> Some (CHR ''!'')) = (\<not> disabled_entry p)" for p
    by (cases p) (simp_all add: tstring_at_def disabled_entry_def)
  have nil: "\<not> disabled_entry []"
    by (simp add: disabled_entry_def)
  have "\<exists>a'. LoadExtensions E a = Inr a' \<and>
      constructed (new_events a a') =
        (if m_bCanLoadExtensions a
         then filter (\<lambda>p. tstring_at p 0 \<noteq> Some (CHR ''#'') \<and> tstring_at p 0 \<noteq> Some (CHR ''!''))
                (GetExtensions (m_settings a))
         else []) \<and>
      (m_bCanLoadExtensions a \<and> [] \<in> set (GetExtensions (m_settings a)) \<longrightarrow>
         [] \<in> set (constructed (new_events a a')))"
  proof (cases "m_bCanLoadExtensions a")
    case True
    then show ?thesis
      by (simp add: LoadExtensions_on constructed_load eq nil)
  next
    case False
    then show ?thesis
      by (simp add: LoadExtensions_def new_events_def)
  qed
  moreover have "\<forall>p \<in> set (GetExtensions (m_settings a)). p \<noteq> [] \<longrightarrow> 0 < length p \<and> tstring_at p 0 = Some (p ! 0)"
    by (simp add: tstring_at_def)
  moreover have "tstring_at [] 0 = Some (CHR 0x00)"
    by (simp add: tstring_at_def)
  ultimately show ?thesis
    using nil by blast
qed

theorem C10_witness:
  "\<exists>a'. LoadExtensions example_env (App example_env) = Inr a' \<and>
      constructed (new_events (App example_env) a') = [''pypn.dll'', ''broken.dll'', [], ''tcl.dll''] \<and>
      tstring_at ''pypn.dll'' 0 = Some (CHR ''p'') \<and>
      tstring_at [] 0 = Some (CHR 0x00)"
proof -
  from C10_index_zero_read [of example_env "App example_env"]
  obtain a' where r: "LoadExtensions example_env (App example_env) = Inr a'"
    and c: "constructed (new_events (App example_env) a') =
        (if m_bCanLoadExtensions (App example_env)
         then filter (\<lambda>p. tstring_at p 0 \<noteq> Some (CHR ''#'') \<and> tstring_at p 0 \<noteq> Some (CHR ''!''))
                (GetExtensions (m_settings (App example_env)))
         else [])"
    and i: "\<forall>p \<in> set (GetExtensions (m_settings (App example_env))).
              p \<noteq> [] \<longrightarrow> 0 < length p \<and> tstring_at p 0 = Some (p ! 0)"
    and z: "tstring_at [] 0 = Some (CHR 0x00)"
    by blast
  from c example_on have "constructed (new_events (App example_env) a') =
      [''pypn.dll'', ''broken.dll'', [], ''tcl.dll'']"
    by (simp add: example_list example_settings_def tstring_at_def)
  moreover from i have "tstring_at ''pypn.dll'' 0 = Some (CHR ''p'')"
    by (simp add: example_list example_settings_def)
  ultimately show ?thesis
    using r z by blast
qed

subsection \<open>Clearing the user data\<close>

text \<open>
  C8. If deleting the user-settings directory fails, \<open>ClearUserData\<close> returns false,
  having only attempted the deletion and raised the unexpected condition: the UI-settings
  subkey is not cleared and no directory is created. If the deletion succeeds, it clears
  the subkey \<open>PNSK_INTERFACE\<close>, then has the user-settings directory created again, and
  returns true. (Whether the directory then exists is the answer of the directory helper;
  when that fails the unexpected condition is raised and true is returned all the same.)
\<close>

theorem C8_clear_user_data:
  "(\<not> DeleteDirectory E (GetPNPath E PNPATH_USERSETTINGS) True \<longrightarrow>
      ClearUserData E a =
        (False, a\<lparr>trace := trace a @
           [DeleteDirectory_call (GetPNPath E PNPATH_USERSETTINGS) True,
            UNEXPECTED ''Failed to delete user settings directory!'']\<rparr>)) \<and>
   (DeleteDirectory E (GetPNPath E PNPATH_USERSETTINGS) True \<longrightarrow>
      ClearUserData E a =
        (True, a\<lparr>trace := trace a @
           [DeleteDirectory_call (GetPNPath E PNPATH_USERSETTINGS) True,
            Options_Clear (PNSK_INTERFACE E),
            CreateDirectoryRecursive_call (GetPNPath E PNPATH_USERSETTINGS)] @
           (if CreateDirectoryRecursive E (GetPNPath E PNPATH_USERSETTINGS) then []
            else [UNEXPECTED ''Could not create user settings folder''])\<rparr>))"
  by (simp add: ClearUserData_def ensureUserSettingsDir_def raise_unexpected_def emit_def Let_def)

theorem C8_witness:
  "ClearUserData example_env_locked (App example_env) =
     (False, (App example_env)\<lparr>trace := trace (App example_env) @
        [DeleteDirectory_call ''user/'' True,
         UNEXPECTED ''Failed to delete user settings directory!'']\<rparr>) \<and>
   ClearUserData example_env (App example_env) =
     (True, (App example_env)\<lparr>trace := trace (App example_env) @
        [DeleteDirectory_call ''user/'' True, Options_Clear ''Interface Settings'',
         CreateDirectoryRecursive_call ''user/'']\<rparr>)"
  using C8_clear_user_data [of example_env_locked "App example_env"]
    C8_clear_user_data [of example_env "App example_env"]
  by (simp add: example_env_fields example_env_locked_fields)

subsection \<open>Shutdown\<close>

lemma example_init:
  "m_sinks (Init example_env (App example_env)) = []"
  "m_dispatch (Init example_env (App example_env)) = Some ''user/keymap.dat''"
  by (simp_all add: Init_def Let_def emit_def example_app example_env_fields)

text \<open>
  C9. \<open>deinit\<close> works in a fixed order. First \<open>unloadExtensions\<close>: every registered sink
  gets \<open>OnAppClose\<close>, in the order of \<open>m_sinks\<close>, which is registration order; then
  every owned extension gets \<open>Unload\<close>, in the order of \<open>m_exts\<close>; then \<open>m_exts\<close> is
  empty. After that, in this order: the settings are deleted, the deletion manager
  sweeps, the options object is released (and the global pointer reset), and the command
  dispatcher is deleted. The dispatcher exists once \<open>Init\<close> has run; on an \<open>App\<close> that was
  never initialised \<open>m_dispatch\<close> is null, there is no dispatcher to release, and the
  release of the options object is the last call. The extensions unloaded are the owned
  ones in their order, and for a set filled by \<open>LoadExtensions\<close> that is the order in
  which they were constructed.
\<close>

theorem C9_shutdown_order:
  "m_sinks (AddEventSink s a) = m_sinks a @ [s] \<and>
   new_events a (unloadExtensions a) =
     map OnAppClose_call (m_sinks a) @ map Extension_Unload (m_exts a) \<and>
   m_exts (unloadExtensions a) = [] \<and>
   new_events (unloadExtensions a) (deinit a) =
     [AppSettings_delete, DeletionManager_DeleteAll, OptionsFactory_Release] @
     (case m_dispatch a of None \<Rightarrow> [] | Some keypath \<Rightarrow> [CommandDispatch_delete keypath]) \<and>
   trace (deinit a) =
     trace a @ map OnAppClose_call (m_sinks a) @ map Extension_Unload (m_exts a) @
     [AppSettings_delete, DeletionManager_DeleteAll, OptionsFactory_Release] @
     (case m_dispatch a of None \<Rightarrow> [] | Some keypath \<Rightarrow> [CommandDispatch_delete keypath]) \<and>
   m_dispatch (App E) = None \<and>
   m_dispatch (Init E b) = Some (GetPNPath E PNPATH_USERSETTINGS @ ''keymap.dat'') \<and>
   unloaded (new_events a (deinit a)) = m_exts a \<and>
   m_exts (deinit a) = [] \<and> \<not> g_Context_options (deinit a) \<and>
   (case LoadExtensions E (a\<lparr>m_exts := []\<rparr>) of
      Inl f \<Rightarrow> False
    | Inr a' \<Rightarrow> unloaded (new_events a' (deinit a')) =
        map Extension (filter (Valid E) (constructed (new_events (a\<lparr>m_exts := []\<rparr>) a'))))"
proof -
  have t: "trace (deinit a) =
     trace a @ map OnAppClose_call (m_sinks a) @ map Extension_Unload (m_exts a) @
     [AppSettings_delete, DeletionManager_DeleteAll, OptionsFactory_Release] @
     (case m_dispatch a of None \<Rightarrow> [] | Some keypath \<Rightarrow> [CommandDispatch_delete keypath])" for a
    by (cases "m_dispatch a") (simp_all add: deinit_def unloadExtensions_eq emit_def)
  have d: "unloaded (case m_dispatch a of None \<Rightarrow> []
             | Some keypath \<Rightarrow> [CommandDispatch_delete keypath]) = []" for a
    by (cases "m_dispatch a") simp_all
  have u: "unloaded (new_events a (deinit a)) = m_exts a" for a
    by (simp add: new_events_def t unloaded_append unloaded_sinks unloaded_exts d)
  have l: "(case LoadExtensions E (a\<lparr>m_exts := []\<rparr>) of
      Inl f \<Rightarrow> False
    | Inr a' \<Rightarrow> unloaded (new_events a' (deinit a')) =
        map Extension (filter (Valid E) (constructed (new_events (a\<lparr>m_exts := []\<rparr>) a'))))"
  proof (cases "m_bCanLoadExtensions a")
    case True
    then obtain a' where r: "LoadExtensions E (a\<lparr>m_exts := []\<rparr>) = Inr a'"
      and m: "m_exts a' = map Extension (filter (Valid E)
                (filter (\<lambda>p. \<not> disabled_entry p) (GetExtensions (m_settings a))))"
      and n: "new_events (a\<lparr>m_exts := []\<rparr>) a' =
                concat (map (load_events E) (GetExtensions (m_settings a)))"
      by (simp add: LoadExtensions_on new_events_def)
    show ?thesis
      by (simp add: r u m n constructed_load)
  next
    case False
    have "new_events (a\<lparr>m_exts := []\<rparr>) (a\<lparr>m_exts := []\<rparr>) = []"
      by (simp add: new_events_def)
    with False u [of "a\<lparr>m_exts := []\<rparr>"] show ?thesis
      by (simp add: LoadExtensions_def)
  qed
  have "new_events a (unloadExtensions a) =
     map OnAppClose_call (m_sinks a) @ map Extension_Unload (m_exts a)"
    by (simp add: unloadExtensions_eq)
  moreover have "m_exts (unloadExtensions a) = []"
    by (simp add: unloadExtensions_eq)
  moreover have "new_events (unloadExtensions a) (deinit a) =
     [AppSettings_delete, DeletionManager_DeleteAll, OptionsFactory_Release] @
     (case m_dispatch a of None \<Rightarrow> [] | Some keypath \<Rightarrow> [CommandDispatch_delete keypath])"
    by (simp add: new_events_def t unloadExtensions_eq)
  moreover have "m_exts (deinit a) = []" "\<not> g_Context_options (deinit a)"
    by (cases "m_dispatch a"; simp add: deinit_def unloadExtensions_eq emit_def)+
  moreover have "m_sinks (AddEventSink s a) = m_sinks a @ [s]"
    by (simp add: AddEventSink_def)
  moreover have "m_dispatch (App E) = None"
    by (simp add: App_def ensureUserSettingsDir_def raise_unexpected_def emit_def Let_def)
  moreover have "m_dispatch (Init E b) = Some (GetPNPath E PNPATH_USERSETTINGS @ ''keymap.dat'')"
    by (simp add: Init_def Let_def)
  ultimately show ?thesis
    using t u l by blast
qed

text \<open>
  The whole life of an initialised \<open>App\<close> with two sinks and the example path list, and
  the shutdown of an \<open>App\<close> that was only constructed.
\<close>

theorem C9_witness:
  "trace (deinit (AddEventSink 3 (AddEventSink 4
      ((Init example_env (App example_env))
         \<lparr>m_exts := [Extension ''pypn.dll'', Extension [], Extension ''tcl.dll'']\<rparr>)))) =
   trace (Init example_env (App example_env)) @
     [OnAppClose_call 4, OnAppClose_call 3,
      Extension_Unload (Extension ''pypn.dll''), Extension_Unload (Extension []),
      Extension_Unload (Extension ''tcl.dll''),
      AppSettings_delete, DeletionManager_DeleteAll, OptionsFactory_Release,
      CommandDispatch_delete ''user/keymap.dat''] \<and>
   trace (deinit (App example_env)) =
     trace (App example_env) @
     [AppSettings_delete, DeletionManager_DeleteAll, OptionsFactory_Release]"
proof -
  let ?a = "AddEventSink 3 (AddEventSink 4
      ((Init example_env (App example_env))
         \<lparr>m_exts := [Extension ''pypn.dll'', Extension [], Extension ''tcl.dll'']\<rparr>))"
  have f: "m_sinks ?a = [4, 3]"
    "m_exts ?a = [Extension ''pypn.dll'', Extension [], Extension ''tcl.dll'']"
    "m_dispatch ?a = Some ''user/keymap.dat''"
    "trace ?a = trace (Init example_env (App example_env))"
    by (simp_all add: AddEventSink_def example_init)
  have g: "m_sinks (App example_env) = []" "m_exts (App example_env) = []"
    "m_dispatch (App example_env) = None"
    by (simp_all add: example_app)
  from C9_shutdown_order [of _ ?a example_env]
  have "trace (deinit ?a) =
     trace ?a @ map OnAppClose_call (m_sinks ?a) @ map Extension_Unload (m_exts ?a) @
     [AppSettings_delete, DeletionManager_DeleteAll, OptionsFactory_Release] @
     (case m_dispatch ?a of None \<Rightarrow> [] | Some keypath \<Rightarrow> [CommandDispatch_delete keypath])"
    by blast
  then have one: "trace (deinit ?a) =
     trace (Init example_env (App example_env)) @
     [OnAppClose_call 4, OnAppClose_call 3,
      Extension_Unload (Extension ''pypn.dll''), Extension_Unload (Extension []),
      Extension_Unload (Extension ''tcl.dll''),
      AppSettings_delete, DeletionManager_DeleteAll, OptionsFactory_Release,
      CommandDispatch_delete ''user/keymap.dat'']"
    by (simp only: f) simp
  from C9_shutdown_order [of _ "App example_env" example_env]
  have "trace (deinit (App example_env)) =
     trace (App example_env) @ map OnAppClose_call (m_sinks (App example_env)) @
     map Extension_Unload (m_exts (App example_env)) @
     [AppSettings_delete, DeletionManager_DeleteAll, OptionsFactory_Release] @
     (case m_dispatch (App example_env) of None \<Rightarrow> []
      | Some keypath \<Rightarrow> [CommandDispatch_delete keypath])"
    by blast
  then have two: "trace (deinit (App example_env)) =
     trace (App example_env) @
     [AppSettings_delete, DeletionManager_DeleteAll, OptionsFactory_Release]"
    by (simp only: g) simp
  from one two show ?thesis by blast
qed

end
